theory Spec2Isabelle
  imports Main
begin

section \<open>Python strings\<close>

text \<open>
  A Python \<open>str\<close> is a sequence of Unicode code points, so it is modelled as a list of
  natural numbers. \<open>u\<close> reads an ASCII literal of the source.
\<close>

type_synonym pystr = "nat list"

definition u :: "string \<Rightarrow> pystr" where
  "u s = map of_char s"

definition TAB :: nat where
  "TAB = 9"

definition LF :: nat where
  "LF = 10"

definition CR :: nat where
  "CR = 13"

text \<open>
  \<open>str.isspace\<close> on one code point: U+0009..U+000D, U+001C..U+001F, U+0020, U+0085,
  U+00A0, U+1680, U+2000..U+200A, U+2028, U+2029, U+202F, U+205F, U+3000.
\<close>

definition isspace :: "nat \<Rightarrow> bool" where
  "isspace c =
     ((9 \<le> c \<and> c \<le> 13) \<or> (28 \<le> c \<and> c \<le> 31) \<or> c = 32 \<or> c = 133 \<or> c = 160 \<or>
      c = 5760 \<or> (8192 \<le> c \<and> c \<le> 8202) \<or> c = 8232 \<or> c = 8233 \<or> c = 8239 \<or>
      c = 8287 \<or> c = 12288)"

text \<open>
  The line boundaries of \<open>str.splitlines\<close>: LF, VT, FF, CR, FS, GS, RS, NEL, U+2028 and
  U+2029 (CR LF counts as one boundary).
\<close>

definition is_linebreak :: "nat \<Rightarrow> bool" where
  "is_linebreak c =
     (c = 10 \<or> c = 11 \<or> c = 12 \<or> c = 13 \<or> c = 28 \<or> c = 29 \<or> c = 30 \<or> c = 133 \<or>
      c = 8232 \<or> c = 8233)"

text \<open>\<open>s.strip()\<close>: leading and trailing whitespace removed.\<close>

definition strip :: "pystr \<Rightarrow> pystr" where
  "strip s = dropWhile isspace (rev (dropWhile isspace (rev s)))"

text \<open>\<open>s.endswith(suf)\<close>.\<close>

definition endswith :: "pystr \<Rightarrow> pystr \<Rightarrow> bool" where
  "endswith s suf = (length suf \<le> length s \<and> drop (length s - length suf) s = suf)"

text \<open>
  \<open>s.split(sep)\<close> for a separator of one code point: the fields between the
  separators, at least one field (\<open>''.split('\t') == ['']\<close>).
\<close>

fun split_char :: "nat \<Rightarrow> pystr \<Rightarrow> pystr list" where
  "split_char c [] = [[]]"
| "split_char c (x # xs) =
     (if x = c then [] # split_char c xs
      else (case split_char c xs of
              [] \<Rightarrow> [[x]]
            | f # fs \<Rightarrow> (x # f) # fs))"

text \<open>
  \<open>s.splitlines()\<close>: the lines without their boundaries; no empty last line after a
  final boundary. \<open>cur\<close> is the line being read.
\<close>

fun splitlines_from :: "pystr \<Rightarrow> pystr \<Rightarrow> pystr list" where
  "splitlines_from cur [] = (if cur = [] then [] else [cur])"
| "splitlines_from cur (c # cs) =
     (if c = CR \<and> cs \<noteq> [] \<and> hd cs = LF then cur # splitlines_from [] (tl cs)
      else if is_linebreak c then cur # splitlines_from [] cs
      else splitlines_from (cur @ [c]) cs)"

definition splitlines :: "pystr \<Rightarrow> pystr list" where
  "splitlines s = splitlines_from [] s"


section \<open>Exceptions and results\<close>

text \<open>
  The exceptions the modelled code can meet, all subclasses of \<open>Exception\<close>:
  \<open>subprocess.TimeoutExpired(cmd, timeout)\<close>, \<open>IndexError\<close>, and any other one
  raised while spawning or reading a child process (\<open>FileNotFoundError\<close>,
  \<open>PermissionError\<close>, \<open>OSError\<close>, \<open>UnicodeDecodeError\<close>), kept with its message.
\<close>

datatype exn = TimeoutExpired "pystr list" nat | IndexError | Exception pystr

text \<open>
  A Python call returns a value, raises, or never returns (\<open>Block\<close>: a blocking call
  made without a timeout on a child process that never exits).
\<close>

datatype 'a result = Return 'a | Raise exn | Block

text \<open>\<open>xs[i]\<close> for \<open>i \<ge> 0\<close>: IndexError out of range.\<close>

definition getitem :: "'a list \<Rightarrow> nat \<Rightarrow> 'a result" where
  "getitem xs i = (if i < length xs then Return (xs ! i) else Raise IndexError)"


section \<open>The device bridge\<close>

text \<open>
  What a child process does once \<open>subprocess.run\<close> starts it: it exits with captured
  standard output and an exit status, the spawn or the reading of its output raises, or
  it never exits. The bridge is the outside world: it fixes this for every argument vector.
\<close>

datatype proc_outcome = Completed pystr int | Raises exn | Hangs

type_synonym bridge = "pystr list \<Rightarrow> proc_outcome"

text \<open>
  \<open>subprocess.run(argv, capture_output=True, timeout=t)\<close> without \<open>check=True\<close>: a
  non-zero exit status is returned, not raised. With a timeout, a child that never exits
  is killed and \<open>TimeoutExpired\<close> is raised; without one the call blocks for ever.
\<close>

definition subprocess_run ::
  "proc_outcome \<Rightarrow> pystr list \<Rightarrow> nat option \<Rightarrow> (pystr \<times> int) result" where
  "subprocess_run p argv timeout =
     (case p of
        Completed out rc \<Rightarrow> Return (out, rc)
      | Raises e \<Rightarrow> Raise e
      | Hangs \<Rightarrow> (case timeout of None \<Rightarrow> Block | Some t \<Rightarrow> Raise (TimeoutExpired argv t)))"

text \<open>
  \<open>get_bundled_adb()\<close> needs the file system: \<open>bundled_path\<close> is
  \<open>os.path.join(base_dir, "adb", "adb.exe")\<close> and \<open>bundled_exists\<close> whether that file exists.
\<close>

record host =
  bundled_path :: pystr
  bundled_exists :: bool

definition get_bundled_adb :: "host \<Rightarrow> pystr" where
  "get_bundled_adb h = (if bundled_exists h then bundled_path h else u ''adb'')"


section \<open>Signals\<close>

text \<open>
  One constructor for each message the source emits on \<open>signals.log\<close>:
  \<^item> \<open>LogProcessing serial\<close> is \<open>f"[+] Processing {serial}"\<close>,
  \<^item> \<open>LogBootTimeout serial\<close> is \<open>f"[!] {serial} boot timeout"\<close>,
  \<^item> \<open>LogBootCheckFailed e\<close> is \<open>f"[!] Boot check failed: {e}"\<close>,
  \<^item> \<open>LogDone serial\<close> is the check mark message \<open>f"[...] Done {serial}"\<close>,
  \<^item> \<open>LogMonitoringStarted n\<close> is \<open>f"Monitoring started (max {n} devices)"\<close>,
  \<^item> \<open>LogPollError e\<close> is \<open>f"[!] Poll error: {e}"\<close>.
\<close>

datatype log_event =
    LogProcessing pystr
  | LogBootTimeout pystr
  | LogBootCheckFailed exn
  | LogDone pystr
  | LogMonitoringStarted int
  | LogPollError exn


section \<open>DeviceWorker\<close>

record DeviceWorker =
  serial :: pystr
  adb :: pystr

definition DeviceWorker_init :: "host \<Rightarrow> pystr \<Rightarrow> DeviceWorker" where
  "DeviceWorker_init h s = \<lparr>serial = s, adb = get_bundled_adb h\<rparr>"

text \<open>
  What a run of the worker does, in order: a message emitted on \<open>signals.log\<close>, or a
  call of \<open>subprocess.run\<close> with its argument vector.
\<close>

datatype wevent = Emit log_event | Invoke "pystr list"

text \<open>How \<open>run\<close> ends: it returns, an exception leaves it, or it never returns.\<close>

datatype ending = Returned | Escaped exn | Blocked

definition boot_argv :: "DeviceWorker \<Rightarrow> pystr list" where
  "boot_argv w = [adb w, u ''-s'', serial w, u ''shell'', u ''getprop'', u ''sys.boot_completed'']"

definition wake_argv :: "DeviceWorker \<Rightarrow> pystr list" where
  "wake_argv w = [adb w, u ''-s'', serial w, u ''shell'', u ''input'', u ''keyevent'', u ''82'']"

definition commands :: "DeviceWorker \<Rightarrow> pystr list list" where
  "commands w =
     [[adb w, u ''-s'', serial w, u ''shell'', u ''pm'', u ''disable-user'',
       u ''--user'', u ''0'', u ''com.google.android.setupwizard''],
      [adb w, u ''-s'', serial w, u ''shell'', u ''am'', u ''broadcast'',
       u ''-a'', u ''android.provider.Telephony.SECRET_CODE'',
       u ''-d'', u ''android_secret_code://ussd'']]"

text \<open>
  \<open>for cmd in commands: subprocess.run(cmd, capture_output=True)\<close>: no timeout, no
  \<open>try\<close>, the result is dropped.
\<close>

fun run_commands :: "bridge \<Rightarrow> pystr list list \<Rightarrow> wevent list \<times> ending" where
  "run_commands br [] = ([], Returned)"
| "run_commands br (cmd # cmds) =
     (case subprocess_run (br cmd) cmd None of
        Return r \<Rightarrow> (case run_commands br cmds of (evs, e) \<Rightarrow> (Invoke cmd # evs, e))
      | Raise x \<Rightarrow> ([Invoke cmd], Escaped x)
      | Block \<Rightarrow> ([Invoke cmd], Blocked))"

text \<open>The part of \<open>run\<close> after the boot check: wake, commands, the success message.\<close>

definition provision :: "bridge \<Rightarrow> DeviceWorker \<Rightarrow> wevent list \<times> ending" where
  "provision br w =
     (case subprocess_run (br (wake_argv w)) (wake_argv w) None of
        Raise x \<Rightarrow> ([Invoke (wake_argv w)], Escaped x)
      | Block \<Rightarrow> ([Invoke (wake_argv w)], Blocked)
      | Return r \<Rightarrow>
          (case run_commands br (commands w) of
             (evs, Returned) \<Rightarrow> (Invoke (wake_argv w) # evs @ [Emit (LogDone (serial w))], Returned)
           | (evs, e) \<Rightarrow> (Invoke (wake_argv w) # evs, e)))"

text \<open>
  \<open>DeviceWorker.run\<close>. The result carries the worker object as the run leaves it, the
  events of the run in order, and how the run ends.
\<close>

definition DeviceWorker_run ::
  "bridge \<Rightarrow> DeviceWorker \<Rightarrow> DeviceWorker \<times> wevent list \<times> ending" where
  "DeviceWorker_run br w =
     (case subprocess_run (br (boot_argv w)) (boot_argv w) (Some 120) of
        Return r \<Rightarrow>
          (if strip (fst r) \<noteq> u ''1''
           then (w, [Emit (LogProcessing (serial w)), Invoke (boot_argv w),
                     Emit (LogBootTimeout (serial w))], Returned)
           else (case provision br w of
                   (evs, e) \<Rightarrow>
                     (w, Emit (LogProcessing (serial w)) # Invoke (boot_argv w) # evs, e)))
      | Raise x \<Rightarrow>
          (w, [Emit (LogProcessing (serial w)), Invoke (boot_argv w),
               Emit (LogBootCheckFailed x)], Returned)
      | Block \<Rightarrow> (w, [Emit (LogProcessing (serial w)), Invoke (boot_argv w)], Blocked))"

text \<open>The command invocations of a run, and its log messages, in order.\<close>

fun invocations :: "wevent list \<Rightarrow> pystr list list" where
  "invocations [] = []"
| "invocations (Invoke a # evs) = a # invocations evs"
| "invocations (Emit l # evs) = invocations evs"

fun emitted :: "wevent list \<Rightarrow> log_event list" where
  "emitted [] = []"
| "emitted (Emit l # evs) = l # emitted evs"
| "emitted (Invoke a # evs) = emitted evs"


section \<open>Parsing the enumeration\<close>

text \<open>
  The body of the \<open>for line in r.stdout.splitlines()[1:]\<close> loop: a line whose
  trimmed text ends with a tab and \<open>device\<close> appends \<open>line.split("\t")[0]\<close>, the text
  of the untrimmed line before its first tab.
\<close>

fun collect_devices :: "pystr list \<Rightarrow> pystr list \<Rightarrow> pystr list result" where
  "collect_devices [] devices = Return devices"
| "collect_devices (line # lines) devices =
     (if endswith (strip line) (TAB # u ''device'')
      then (case getitem (split_char TAB line) 0 of
              Return s \<Rightarrow> collect_devices lines (devices @ [s])
            | Raise x \<Rightarrow> Raise x
            | Block \<Rightarrow> Block)
      else collect_devices lines devices)"

definition parse_devices :: "pystr \<Rightarrow> pystr list result" where
  "parse_devices out = collect_devices (drop 1 (splitlines out)) []"

text \<open>The same selection written as a filter: each line is judged on its own.\<close>

definition ready_serials :: "pystr list \<Rightarrow> pystr list" where
  "ready_serials lines =
     map (takeWhile (\<lambda>c. c \<noteq> TAB))
       (filter (\<lambda>line. endswith (strip line) (TAB # u ''device'')) lines)"


section \<open>MonitorThread\<close>

record MonitorThread =
  adb :: pystr
  max_devices :: int
  running :: bool

text \<open>
  What the monitor thread does, in order: a message on \<open>signals.log\<close>, a count on
  \<open>signals.device_count\<close>, \<open>threadpool.start(worker)\<close>, \<open>msleep(ms)\<close>. \<open>StopBegan\<close>
  marks the moment at which another thread, in \<open>stop()\<close>, writes \<open>running = False\<close>.
\<close>

datatype mevent =
    Log log_event
  | DeviceCount nat
  | PoolStart DeviceWorker
  | Msleep nat
  | StopBegan

text \<open>
  The \<open>try\<close> block of one iteration. Only \<open>subprocess.run\<close> and the parsing can raise,
  and both come before the first emission, so a raising block has emitted nothing.
\<close>

definition poll_try :: "host \<Rightarrow> MonitorThread \<Rightarrow> proc_outcome \<Rightarrow> mevent list result" where
  "poll_try h m p =
     (case subprocess_run p [MonitorThread.adb m, u ''devices''] None of
        Return r \<Rightarrow>
          (case parse_devices (fst r) of
             Return devices \<Rightarrow>
               Return (DeviceCount (length devices)
                       # map (\<lambda>s. PoolStart (DeviceWorker_init h s)) devices
                       @ [Msleep 2000])
           | Raise x \<Rightarrow> Raise x
           | Block \<Rightarrow> Block)
      | Raise x \<Rightarrow> Raise x
      | Block \<Rightarrow> Block)"

text \<open>
  One iteration of the \<open>while\<close> body with its \<open>except Exception\<close> handler; \<open>None\<close> when
  the enumeration never returns.
\<close>

definition poll_iteration :: "host \<Rightarrow> MonitorThread \<Rightarrow> proc_outcome \<Rightarrow> mevent list option" where
  "poll_iteration h m p =
     (case poll_try h m p of
        Return evs \<Rightarrow> Some evs
      | Raise x \<Rightarrow> Some [Log (LogPollError x), Msleep 1000]
      | Block \<Rightarrow> None)"










section \<open>The worker pool\<close>

text \<open>
  Modelled from the spec: the Worker Pool of section 4.3, which the source takes from Qt
  (\<open>QThreadPool\<close>, created and given \<open>setMaxThreadCount(max_devices)\<close> in
  \<open>MonitorThread.__init__\<close>); its scheduling code is not part of the repository. A
  submitted task starts at once when fewer than the ceiling are active and waits in a
  FIFO queue otherwise; when an active task ends, the head of the queue takes the slot.
\<close>

record 'a pool =
  max_thread_count :: int
  active :: "'a list"
  queued :: "'a list"

definition pool_configure :: "int \<Rightarrow> 'a pool" where
  "pool_configure n = \<lparr>max_thread_count = n, active = [], queued = []\<rparr>"

definition pool_submit :: "'a pool \<Rightarrow> 'a \<Rightarrow> 'a pool" where
  "pool_submit p t =
     (if int (length (active p)) < max_thread_count p
      then p\<lparr>active := active p @ [t]\<rparr>
      else p\<lparr>queued := queued p @ [t]\<rparr>)"

definition pool_task_done :: "'a pool \<Rightarrow> 'a \<Rightarrow> 'a pool" where
  "pool_task_done p t =
     (if t \<in> set (active p)
      then (case queued p of
              [] \<Rightarrow> p\<lparr>active := remove1 t (active p)\<rparr>
            | q # qs \<Rightarrow> p\<lparr>active := remove1 t (active p) @ [q], queued := qs\<rparr>)
      else p)"

definition pool_clear :: "'a pool \<Rightarrow> 'a pool" where
  "pool_clear p = p\<lparr>queued := []\<rparr>"

datatype 'a pool_action = Submit 'a | TaskDone 'a | Clear

fun pool_step :: "'a pool \<Rightarrow> 'a pool_action \<Rightarrow> 'a pool" where
  "pool_step p (Submit t) = pool_submit p t"
| "pool_step p (TaskDone t) = pool_task_done p t"
| "pool_step p Clear = pool_clear p"

definition pool_exec :: "'a pool \<Rightarrow> 'a pool_action list \<Rightarrow> 'a pool" where
  "pool_exec p acts = foldl pool_step p acts"

text \<open>
  \<open>MonitorThread.__init__\<close>: the thread object, not yet running, and its pool with the
  ceiling \<open>max_devices\<close>.
\<close>

definition MonitorThread_init :: "host \<Rightarrow> int \<Rightarrow> MonitorThread \<times> DeviceWorker pool" where
  "MonitorThread_init h n =
     (\<lparr>adb = get_bundled_adb h, max_devices = n, running = False\<rparr>, pool_configure n)"



section \<open>The enumeration table\<close>

text \<open>
  The enumeration output in the words of the specification (section 6): a table with an
  identifier column and a status column, under one header line; a row is its identifier,
  a tab and its status. The bridge executable also prints empty lines (one after the
  last row), so a line under the header is a row (\<open>Some\<close>) or empty (\<open>None\<close>), and
  every line ends with a line feed.
\<close>

definition table_row :: "pystr \<times> pystr \<Rightarrow> pystr" where
  "table_row r = fst r @ TAB # snd r"




definition no_space :: "pystr \<Rightarrow> bool" where
  "no_space w = list_all (\<lambda>c. \<not> isspace c) w"

definition one_line :: "pystr \<Rightarrow> bool" where
  "one_line l = list_all (\<lambda>c. \<not> is_linebreak c) l"

text \<open>
  A row of the table is well formed: its identifier is not empty and has no whitespace;
  its status is some text of one line without a tab that does not end with whitespace
  (\<open>device\<close>, \<open>offline\<close>, \<open>unauthorized\<close>, \<open>no permissions\<close>).
\<close>

definition row_ok :: "pystr \<times> pystr \<Rightarrow> bool" where
  "row_ok r =
     (fst r \<noteq> [] \<and> no_space (fst r) \<and>
      TAB \<notin> set (snd r) \<and> one_line (snd r) \<and> (snd r = [] \<or> \<not> isspace (last (snd r))))"


text \<open>The identifiers of the rows whose status is the ready state \<open>device\<close>.\<close>

definition ready_rows :: "(pystr \<times> pystr) list \<Rightarrow> pystr list" where
  "ready_rows rows = map fst (filter (\<lambda>r. snd r = u ''device'') rows)"

text \<open>
  An output has the shape of the table: a header line, then lines that are empty or
  have exactly two non-empty fields separated by one tab.
\<close>

definition table_shaped :: "pystr \<Rightarrow> bool" where
  "table_shaped out =
     (case splitlines out of
        [] \<Rightarrow> False
      | header # lines \<Rightarrow>
          list_all (\<lambda>l. l = [] \<or>
                     (case split_char TAB l of
                        [i, s] \<Rightarrow> i \<noteq> [] \<and> s \<noteq> []
                      | _ \<Rightarrow> False)) lines)"


text \<open>The invariant of the pool: no more active tasks than the ceiling.\<close>

definition within_ceiling :: "'a pool \<Rightarrow> bool" where
  "within_ceiling p = (int (length (active p)) \<le> max_thread_count p)"


section \<open>Concrete inputs\<close>

text \<open>A worker for the device \<open>abc\<close>, with the bridge executable found on the search path.\<close>

definition worker_abc :: DeviceWorker where
  "worker_abc = \<lparr>serial = u ''abc'', adb = u ''adb''\<rparr>"

text \<open>A bridge on which every call exits with status 0 and prints \<open>0\<close>: the device has not booted.\<close>

definition bridge_not_ready :: bridge where
  "bridge_not_ready argv = Completed (u ''0'' @ [LF]) 0"

text \<open>
  A bridge on which the device has booted and the spawn of the wake call fails, as it
  does when the process has run out of file descriptors.
\<close>

definition bridge_wake_fails :: bridge where
  "bridge_wake_fails argv =
     (if argv = wake_argv worker_abc
      then Raises (Exception (u ''[Errno 24] Too many open files''))
      else Completed (u ''1'' @ [LF]) 0)"

text \<open>
  A bridge on which the device has booted and the first configuration command exits with
  status 1; every other call exits with status 0.
\<close>

definition bridge_command_fails :: bridge where
  "bridge_command_fails argv =
     (if argv = boot_argv worker_abc then Completed (u ''1'' @ [LF]) 0
      else if argv = hd (commands worker_abc) then Completed [] 1
      else Completed [] 0)"

text \<open>A host without a bundled executable: \<open>get_bundled_adb\<close> answers \<open>adb\<close>.\<close>

definition host_path :: host where
  "host_path = \<lparr>bundled_path = u ''adb/adb.exe'', bundled_exists = False\<rparr>"

definition worker_of :: "string \<Rightarrow> DeviceWorker" where
  "worker_of s = DeviceWorker_init host_path (u s)"

text \<open>A monitor thread with the default ceiling of 6, inside its loop.\<close>

definition monitor_six :: MonitorThread where
  "monitor_six = \<lparr>adb = u ''adb'', max_devices = 6, running = True\<rparr>"







text \<open>An output that is not a table: its third line has no tab and no status.\<close>

definition misshapen_output :: pystr where
  "misshapen_output =
     u ''List'' @ [LF] @ u ''abc'' @ [TAB] @ u ''device'' @ [LF] @ u ''error: no table''"

text \<open>An output of one line, which is the row of a ready device.\<close>

definition first_line_row :: pystr where
  "first_line_row = u ''abc'' @ [TAB] @ u ''device''"




section \<open>Properties of the device worker\<close>

lemma strip_one: "strip (u ''1'' @ [LF]) = u ''1''"
  by (simp add: strip_def u_def isspace_def LF_def)

lemma strip_zero: "strip (u ''0'' @ [LF]) \<noteq> u ''1''"
  by (simp add: strip_def u_def isspace_def LF_def)

lemma serial_worker_abc: "serial worker_abc = u ''abc''"
  by (simp add: worker_abc_def)

lemma fst_run: "fst (DeviceWorker_run br w) = w"
  by (simp add: DeviceWorker_run_def split: result.splits prod.splits)

lemma run_commands_all:
  "\<forall>c \<in> set cmds. \<exists>out rc. br c = Completed out rc \<Longrightarrow>
   run_commands br cmds = (map Invoke cmds, Returned)"
  by (induction cmds) (auto simp: subprocess_run_def)

lemma invocations_map_Invoke: "invocations (map Invoke cs @ evs) = cs @ invocations evs"
  by (induction cs) simp_all

lemma emitted_map_Invoke: "emitted (map Invoke cs @ evs) = emitted evs"
  by (induction cs) simp_all

lemma bcf_boot: "bridge_command_fails (boot_argv worker_abc) = Completed (u ''1'' @ [LF]) 0"
  by (simp add: bridge_command_fails_def)

lemma bcf_wake: "bridge_command_fails (wake_argv worker_abc) = Completed [] 0"
  by (simp add: bridge_command_fails_def boot_argv_def wake_argv_def commands_def)

lemma bcf_cmds:
  "\<forall>c \<in> set (commands worker_abc). \<exists>cout crc. bridge_command_fails c = Completed cout crc"
  by (simp add: bridge_command_fails_def)

lemma bcf_first: "bridge_command_fails (hd (commands worker_abc)) = Completed [] 1"
  by (simp add: bridge_command_fails_def boot_argv_def commands_def)

text \<open>
  C2. When the readiness query of a device completes with an output that, trimmed, is
  not "1", the run of the worker is: the processing message, the readiness query, the
  boot-timeout message; then it returns. The only command invoked is the readiness query:
  neither the wake step nor a configuration command.
\<close>

theorem boot_not_ready_stops:
  assumes "br (boot_argv w) = Completed out rc" and "strip out \<noteq> u ''1''"
  shows "DeviceWorker_run br w =
           (w, [Emit (LogProcessing (serial w)), Invoke (boot_argv w),
                Emit (LogBootTimeout (serial w))], Returned)
         \<and> invocations (fst (snd (DeviceWorker_run br w))) = [boot_argv w]
         \<and> wake_argv w \<notin> set (invocations (fst (snd (DeviceWorker_run br w))))
         \<and> (\<forall>c \<in> set (commands w). c \<notin> set (invocations (fst (snd (DeviceWorker_run br w)))))"
proof -
  have r: "DeviceWorker_run br w =
           (w, [Emit (LogProcessing (serial w)), Invoke (boot_argv w),
                Emit (LogBootTimeout (serial w))], Returned)"
    using assms by (simp add: DeviceWorker_run_def subprocess_run_def)
  have d1: "wake_argv w \<noteq> boot_argv w"
    by (simp add: wake_argv_def boot_argv_def)
  have d2: "\<forall>c \<in> set (commands w). c \<noteq> boot_argv w"
    by (simp add: commands_def boot_argv_def)
  show ?thesis using r d1 d2 by simp
qed

theorem boot_not_ready_stops_witness:
  "bridge_not_ready (boot_argv worker_abc) = Completed (u ''0'' @ [LF]) 0
   \<and> strip (u ''0'' @ [LF]) \<noteq> u ''1''
   \<and> DeviceWorker_run bridge_not_ready worker_abc =
       (worker_abc, [Emit (LogProcessing (u ''abc'')), Invoke (boot_argv worker_abc),
                     Emit (LogBootTimeout (u ''abc''))], Returned)"
proof -
  have a: "bridge_not_ready (boot_argv worker_abc) = Completed (u ''0'' @ [LF]) 0"
    by (simp add: bridge_not_ready_def)
  from boot_not_ready_stops[of bridge_not_ready worker_abc "u ''0'' @ [LF]" 0, OF a strip_zero]
    a strip_zero serial_worker_abc show ?thesis by simp
qed

text \<open>
  C3. The claim is that no exception leaves the run of the worker. On a device that has
  booted, with a wake call whose spawn raises, the run ends with that exception leaving
  it: only the readiness check stands inside a \<open>try\<close>, and the run emits neither a
  failure message nor the success message.
\<close>

theorem wake_exception_escapes:
  "DeviceWorker_run bridge_wake_fails worker_abc =
     (worker_abc, [Emit (LogProcessing (u ''abc'')), Invoke (boot_argv worker_abc),
                   Invoke (wake_argv worker_abc)],
      Escaped (Exception (u ''[Errno 24] Too many open files'')))"
proof -
  have b: "bridge_wake_fails (boot_argv worker_abc) = Completed (u ''1'' @ [LF]) 0"
    by (simp add: bridge_wake_fails_def boot_argv_def wake_argv_def)
  have w: "bridge_wake_fails (wake_argv worker_abc) =
             Raises (Exception (u ''[Errno 24] Too many open files''))"
    by (simp add: bridge_wake_fails_def)
  show ?thesis
    by (simp add: DeviceWorker_run_def provision_def subprocess_run_def b w strip_one
        serial_worker_abc)
qed

text \<open>
  C6, as the claim states it: a failing configuration command is logged. On a booted
  device whose first configuration command exits with status 1, the run emits the
  processing message and the success message and nothing else: the failure is not logged.
\<close>

theorem failed_command_not_logged:
  "bridge_command_fails (hd (commands worker_abc)) = Completed [] 1
   \<and> emitted (fst (snd (DeviceWorker_run bridge_command_fails worker_abc)))
       = [LogProcessing (u ''abc''), LogDone (u ''abc'')]"
proof -
  have r: "run_commands bridge_command_fails (commands worker_abc) =
             (map Invoke (commands worker_abc), Returned)"
    using bcf_cmds by (rule run_commands_all)
  have "DeviceWorker_run bridge_command_fails worker_abc =
          (worker_abc,
           [Emit (LogProcessing (u ''abc'')), Invoke (boot_argv worker_abc),
            Invoke (wake_argv worker_abc)]
           @ map Invoke (commands worker_abc) @ [Emit (LogDone (u ''abc''))], Returned)"
    by (simp add: DeviceWorker_run_def provision_def subprocess_run_def bcf_boot bcf_wake
        strip_one r serial_worker_abc)
  then show ?thesis by (simp add: bcf_first emitted_map_Invoke)
qed

text \<open>
  C6, amended. For a device that passes the readiness check and whose wake call and
  configuration commands all run to completion, with any exit status: the run invokes the
  readiness query, the wake call and then each command of the batch exactly once, in the
  order of the batch, each call returning before the next is made; an exit status is
  never logged and never stops the batch; the run emits the processing message first and
  exactly one success message, after the last command, and returns.
\<close>

theorem provisioning_batch:
  assumes "br (boot_argv w) = Completed out rc" and "strip out = u ''1''"
    and "br (wake_argv w) = Completed wout wrc"
    and "\<forall>c \<in> set (commands w). \<exists>cout crc. br c = Completed cout crc"
  shows "DeviceWorker_run br w =
           (w, [Emit (LogProcessing (serial w)), Invoke (boot_argv w), Invoke (wake_argv w)]
               @ map Invoke (commands w) @ [Emit (LogDone (serial w))], Returned)
         \<and> invocations (fst (snd (DeviceWorker_run br w)))
             = boot_argv w # wake_argv w # commands w
         \<and> emitted (fst (snd (DeviceWorker_run br w)))
             = [LogProcessing (serial w), LogDone (serial w)]"
proof -
  have r: "DeviceWorker_run br w =
           (w, [Emit (LogProcessing (serial w)), Invoke (boot_argv w), Invoke (wake_argv w)]
               @ map Invoke (commands w) @ [Emit (LogDone (serial w))], Returned)"
    using assms run_commands_all[of "commands w" br]
    by (simp add: DeviceWorker_run_def provision_def subprocess_run_def)
  show ?thesis
    by (simp add: r invocations_map_Invoke emitted_map_Invoke)
qed

theorem provisioning_batch_witness:
  "bridge_command_fails (boot_argv worker_abc) = Completed (u ''1'' @ [LF]) 0
   \<and> strip (u ''1'' @ [LF]) = u ''1''
   \<and> bridge_command_fails (wake_argv worker_abc) = Completed [] 0
   \<and> bridge_command_fails (hd (commands worker_abc)) = Completed [] 1
   \<and> invocations (fst (snd (DeviceWorker_run bridge_command_fails worker_abc)))
       = boot_argv worker_abc # wake_argv worker_abc # commands worker_abc"
  using provisioning_batch[of bridge_command_fails worker_abc "u ''1'' @ [LF]" 0 "[]" 0,
      OF bcf_boot strip_one bcf_wake bcf_cmds] bcf_boot strip_one bcf_wake bcf_first
  by blast

text \<open>
  C9. A run leaves the worker object as it found it, so a second run of the same worker
  on the same bridge is the same run: the same command invocations in the same order
  (and the same messages and the same ending).
\<close>

theorem run_twice_same_invocations:
  "fst (DeviceWorker_run br w) = w
   \<and> DeviceWorker_run br (fst (DeviceWorker_run br w)) = DeviceWorker_run br w
   \<and> invocations (fst (snd (DeviceWorker_run br (fst (DeviceWorker_run br w)))))
       = invocations (fst (snd (DeviceWorker_run br w)))"
  by (simp add: fst_run)


section \<open>Properties of the parser\<close>

lemma split_char_ne: "split_char c s \<noteq> []"
  by (induction s) (auto split: list.splits)

lemma hd_split_char: "hd (split_char c s) = takeWhile (\<lambda>x. x \<noteq> c) s"
  by (induction s) (auto split: list.splits simp: split_char_ne)

lemma getitem_split_char: "getitem (split_char c s) 0 = Return (takeWhile (\<lambda>x. x \<noteq> c) s)"
  using split_char_ne[of c s] hd_split_char[of c s]
  by (cases "split_char c s") (auto simp: getitem_def)

lemma collect_devices_eq: "collect_devices lines acc = Return (acc @ ready_serials lines)"
  by (induction lines arbitrary: acc) (auto simp: ready_serials_def getitem_split_char)

lemma parse_devices_eq: "parse_devices out = Return (ready_serials (drop 1 (splitlines out)))"
  by (simp add: parse_devices_def collect_devices_eq)

lemma LF_linebreak: "is_linebreak LF"
  by (simp add: is_linebreak_def LF_def)

lemma splitlines_from_line:
  "one_line l \<Longrightarrow> splitlines_from cur (l @ LF # rest) = (cur @ l) # splitlines_from [] rest"
proof (induction l arbitrary: cur)
  case Nil
  then show ?case by (simp add: LF_linebreak) (simp add: LF_def CR_def)
next
  case (Cons c l)
  then have nb: "\<not> is_linebreak c" and l: "one_line l" by (simp_all add: one_line_def)
  from nb have "c \<noteq> CR" by (auto simp: is_linebreak_def CR_def)
  with nb Cons.IH[OF l, of "cur @ [c]"] show ?case by simp
qed


lemma endswith_iff: "endswith s suf \<longleftrightarrow> (\<exists>p. s = p @ suf)"
proof
  assume "endswith s suf"
  then have "s = take (length s - length suf) s @ suf"
    by (metis append_take_drop_id endswith_def)
  then show "\<exists>p. s = p @ suf" ..
next
  assume "\<exists>p. s = p @ suf"
  then show "endswith s suf" by (auto simp: endswith_def)
qed

lemma isspace_TAB: "isspace TAB"
  by (simp add: isspace_def TAB_def)


lemma no_space_TAB: "no_space w \<Longrightarrow> TAB \<notin> set w"
  using isspace_TAB by (auto simp: no_space_def list_all_iff)


lemma strip_id:
  assumes "s \<noteq> []" and "\<not> isspace (hd s)" and "\<not> isspace (last s)"
  shows "strip s = s"
proof -
  have "dropWhile isspace (rev s) = rev s"
    using assms by (simp add: dropWhile_eq_self_iff hd_rev)
  moreover have "dropWhile isspace s = s"
    using assms by (simp add: dropWhile_eq_self_iff)
  ultimately show ?thesis by (simp add: strip_def)
qed

lemma strip_row:
  assumes "row_ok r"
  shows "strip (table_row r) = (if snd r = [] then fst r else table_row r)"
proof (cases "snd r = []")
  case True
  from assms have i: "fst r \<noteq> []" "\<not> isspace (hd (fst r))" "\<not> isspace (last (fst r))"
    by (auto simp: row_ok_def no_space_def list_all_iff)
  have "strip (fst r @ [TAB]) = strip (fst r)"
    by (simp add: strip_def isspace_TAB)
  with True i show ?thesis by (simp add: table_row_def strip_id)
next
  case False
  from assms have i: "fst r \<noteq> []" "\<not> isspace (hd (fst r))"
    by (auto simp: row_ok_def no_space_def list_all_iff)
  from assms False have s: "\<not> isspace (last (snd r))"
    by (auto simp: row_ok_def)
  from i s False show ?thesis by (simp add: table_row_def strip_id)
qed

lemma row_selected:
  assumes "row_ok r"
  shows "endswith (strip (table_row r)) (TAB # u ''device'') \<longleftrightarrow> snd r = u ''device''"
proof -
  from assms have ti: "TAB \<notin> set (fst r)" and ts: "TAB \<notin> set (snd r)"
    by (simp_all add: row_ok_def no_space_TAB)
  show ?thesis
  proof (cases "snd r = []")
    case True
    have "\<not> endswith (fst r) (TAB # u ''device'')"
      using ti by (auto simp: endswith_iff)
    moreover have "u ''device'' \<noteq> []" by (simp add: u_def)
    ultimately show ?thesis using True assms by (simp add: strip_row)
  next
    case False
    have "endswith (fst r @ TAB # snd r) (TAB # u ''device'') \<longleftrightarrow> snd r = u ''device''"
      using ti ts by (auto simp: endswith_iff append_Cons_eq_iff)
    moreover have "strip (table_row r) = fst r @ TAB # snd r"
      using False assms by (simp add: strip_row) (simp add: table_row_def)
    ultimately show ?thesis by simp
  qed
qed

lemma takeWhile_until: "c \<notin> set xs \<Longrightarrow> takeWhile (\<lambda>x. x \<noteq> c) (xs @ c # ys) = xs"
  by (induction xs) auto

lemma row_serial: "row_ok r \<Longrightarrow> takeWhile (\<lambda>c. c \<noteq> TAB) (table_row r) = fst r"
  using no_space_TAB[of "fst r"] by (simp add: row_ok_def table_row_def takeWhile_until)

lemma ready_serials_rows:
  "list_all row_ok rows \<Longrightarrow> ready_serials (map table_row rows) = ready_rows rows"
proof (induction rows)
  case Nil
  show ?case by (simp add: ready_serials_def ready_rows_def)
next
  case (Cons r rows)
  then have r: "row_ok r" and IH: "ready_serials (map table_row rows) = ready_rows rows"
    by simp_all
  from IH row_selected[OF r] row_serial[OF r] show ?case
    by (simp add: ready_serials_def ready_rows_def)
qed



section \<open>Properties of one poll iteration\<close>

lemmas eval_defs = parse_devices_def splitlines_def u_def LF_def CR_def TAB_def
  is_linebreak_def strip_def isspace_def endswith_def getitem_def

lemma poll_iteration_completed:
  "poll_iteration h m (Completed out rc) =
     Some (DeviceCount (length (ready_serials (drop 1 (splitlines out))))
           # map (\<lambda>s. PoolStart (DeviceWorker_init h s)) (ready_serials (drop 1 (splitlines out)))
           @ [Msleep 2000])"
  by (simp add: poll_iteration_def poll_try_def subprocess_run_def parse_devices_eq)


lemma splitlines_first_line:
  "one_line l \<Longrightarrow> splitlines (l @ LF # rest) = l # splitlines rest"
  by (simp add: splitlines_def splitlines_from_line)





















lemma misshapen_parse: "parse_devices misshapen_output = Return [u ''abc'']"
  by (simp add: misshapen_output_def eval_defs)

lemma misshapen_shape: "\<not> table_shaped misshapen_output"
  by (simp add: table_shaped_def misshapen_output_def eval_defs)

lemma one_line_first_line_row: "one_line first_line_row"
  by (simp add: one_line_def first_line_row_def eval_defs)

lemma splitlines_first_line_row: "splitlines first_line_row = [first_line_row]"
  by (simp add: first_line_row_def eval_defs)




text \<open>
  C8, as the claim states it: an output of unexpected shape gives no device and a logged
  error. The output here is not a table, since its third line has no tab; the iteration
  still selects the device of its second line, emits the count 1 and starts a worker,
  and emits no log message at all.
\<close>

theorem misshapen_output_not_rejected:
  "\<not> table_shaped misshapen_output
   \<and> parse_devices misshapen_output = Return [u ''abc'']
   \<and> poll_iteration host_path monitor_six (Completed misshapen_output 0)
       = Some [DeviceCount 1, PoolStart (DeviceWorker_init host_path (u ''abc'')), Msleep 2000]"
proof -
  have "ready_serials (drop 1 (splitlines misshapen_output)) = [u ''abc'']"
    using misshapen_parse by (simp add: parse_devices_eq)
  then show ?thesis
    using misshapen_shape misshapen_parse by (simp add: poll_iteration_completed)
qed

text \<open>
  C8, amended. For every output of a completed enumeration, whatever its shape, the
  parsing never raises: it returns the devices of the lines after the first that, each
  judged on its own, end with a tab and \<open>device\<close> once trimmed; every other line is
  skipped without a message. The \<open>try\<close> block returns, so the handler does not run, and
  the iteration emits the count, one start per device and its normal sleep, and no log
  message.
\<close>

theorem parsing_never_raises:
  "parse_devices out = Return (ready_serials (drop 1 (splitlines out)))
   \<and> poll_try h m (Completed out rc) =
       Return (DeviceCount (length (ready_serials (drop 1 (splitlines out))))
           # map (\<lambda>s. PoolStart (DeviceWorker_init h s)) (ready_serials (drop 1 (splitlines out)))
           @ [Msleep 2000])
   \<and> poll_iteration h m (Completed out rc) =
       Some (DeviceCount (length (ready_serials (drop 1 (splitlines out))))
           # map (\<lambda>s. PoolStart (DeviceWorker_init h s)) (ready_serials (drop 1 (splitlines out)))
           @ [Msleep 2000])"
  by (simp add: poll_iteration_def poll_try_def subprocess_run_def parse_devices_eq)

text \<open>
  C10. The first line of the output is dropped before the filter. An output of at most
  one line gives no device, without error: the iteration emits the count 0 and sleeps.
  And the devices of an output depend only on what follows its first line: whatever the
  first line is, a ready row included, the result is the same as with an empty first line.
\<close>

theorem first_line_discarded:
  "(length (splitlines out) \<le> 1 \<longrightarrow>
      parse_devices out = Return []
      \<and> poll_iteration h m (Completed out rc) = Some [DeviceCount 0, Msleep 2000])
   \<and> (one_line l \<longrightarrow>
        parse_devices (l @ LF # rest) = Return (ready_serials (splitlines rest))
        \<and> parse_devices (l @ LF # rest) = parse_devices (LF # rest))"
proof -
  have a: "length (splitlines out) \<le> 1 \<Longrightarrow> ready_serials (drop 1 (splitlines out)) = []"
    by (simp add: ready_serials_def)
  have e: "one_line []" by (simp add: one_line_def)
  have b: "one_line l \<Longrightarrow>
           parse_devices (l @ LF # rest) = Return (ready_serials (splitlines rest))"
    by (simp add: parse_devices_eq splitlines_first_line)
  have c: "parse_devices (LF # rest) = Return (ready_serials (splitlines rest))"
    using splitlines_first_line[OF e, of rest] by (simp add: parse_devices_eq)
  show ?thesis using a b c by (simp add: parse_devices_eq poll_iteration_completed)
qed

text \<open>
  C10, at the output whose only line is the row of the ready device \<open>abc\<close>: the line
  passes the filter, and no device is counted, with or without a line end after it.
\<close>

theorem first_line_discarded_witness:
  "length (splitlines first_line_row) \<le> 1
   \<and> endswith (strip first_line_row) (TAB # u ''device'')
   \<and> parse_devices first_line_row = Return []
   \<and> poll_iteration host_path monitor_six (Completed first_line_row 0)
       = Some [DeviceCount 0, Msleep 2000]
   \<and> one_line first_line_row
   \<and> parse_devices (first_line_row @ LF # []) = Return []"
proof -
  have l: "length (splitlines first_line_row) \<le> 1" by (simp add: splitlines_first_line_row)
  have r: "endswith (strip first_line_row) (TAB # u ''device'')"
    by (simp add: first_line_row_def eval_defs)
  have s: "ready_serials (splitlines []) = []" by (simp add: ready_serials_def splitlines_def)
  from first_line_discarded[of first_line_row host_path monitor_six 0 first_line_row "[]"]
    l r s one_line_first_line_row show ?thesis by simp
qed


section \<open>Properties of the monitor loop\<close>









section \<open>Properties of the worker pool\<close>

lemma step_ceiling: "max_thread_count (pool_step p a) = max_thread_count p"
  by (cases a) (auto simp: pool_submit_def pool_task_done_def pool_clear_def split: list.splits)

lemma step_within: "within_ceiling p \<Longrightarrow> within_ceiling (pool_step p a)"
proof (cases a)
  case (Submit t)
  assume "within_ceiling p"
  with Submit show ?thesis by (auto simp: within_ceiling_def pool_submit_def)
next
  case (TaskDone t)
  assume w: "within_ceiling p"
  show ?thesis
  proof (cases "t \<in> set (active p)")
    case True
    then have "length (remove1 t (active p)) = length (active p) - 1"
      by (simp add: length_remove1)
    moreover from True have "length (active p) > 0" by (cases "active p") auto
    ultimately show ?thesis using w TaskDone True
      by (auto simp: within_ceiling_def pool_task_done_def split: list.splits)
  next
    case False
    with w TaskDone show ?thesis by (simp add: pool_task_done_def)
  qed
next
  case Clear
  assume "within_ceiling p"
  with Clear show ?thesis by (simp add: within_ceiling_def pool_clear_def)
qed

lemma exec_within:
  "within_ceiling p \<Longrightarrow>
   within_ceiling (pool_exec p acts) \<and> max_thread_count (pool_exec p acts) = max_thread_count p"
  unfolding pool_exec_def
  by (induction acts arbitrary: p) (simp_all add: step_within step_ceiling)

text \<open>
  C1. With a ceiling \<open>n \<ge> 1\<close> given to \<open>MonitorThread.__init__\<close>, after any sequence
  of submissions, task ends and queue clearings, of any length, the number of active
  tasks of the pool is at most \<open>n\<close>. A task submitted while the ceiling is reached is
  not started: the active tasks stay as they are and the task goes to the end of the queue.
\<close>

theorem pool_never_exceeds_ceiling:
  assumes "1 \<le> n"
  shows "int (length (active (pool_exec (snd (MonitorThread_init h n)) acts))) \<le> n
         \<and> (max_thread_count p \<le> int (length (active p)) \<longrightarrow>
              active (pool_submit p t) = active p \<and> queued (pool_submit p t) = queued p @ [t])"
proof -
  have "within_ceiling (pool_configure n :: DeviceWorker pool)"
    using assms by (simp add: within_ceiling_def pool_configure_def)
  from exec_within[OF this, of acts]
  have "int (length (active (pool_exec (pool_configure n :: DeviceWorker pool) acts))) \<le> n"
    by (simp add: within_ceiling_def pool_configure_def)
  then show ?thesis by (simp add: MonitorThread_init_def pool_submit_def)
qed

text \<open>C1, with a ceiling of 2 and three devices: two workers run and the third waits.\<close>

theorem pool_never_exceeds_ceiling_witness:
  "(1::int) \<le> 2
   \<and> pool_exec (snd (MonitorThread_init host_path 2))
        [Submit (worker_of ''a''), Submit (worker_of ''b''), Submit (worker_of ''c'')]
       = \<lparr>max_thread_count = 2, active = [worker_of ''a'', worker_of ''b''],
          queued = [worker_of ''c'']\<rparr>
   \<and> int (length (active (pool_exec (snd (MonitorThread_init host_path 2))
        [Submit (worker_of ''a''), Submit (worker_of ''b''), Submit (worker_of ''c'')]))) \<le> 2"
proof -
  have a: "(1::int) \<le> 2" by simp
  have e: "pool_exec (snd (MonitorThread_init host_path 2))
             [Submit (worker_of ''a''), Submit (worker_of ''b''), Submit (worker_of ''c'')]
           = \<lparr>max_thread_count = 2, active = [worker_of ''a'', worker_of ''b''],
              queued = [worker_of ''c'']\<rparr>"
    by (simp add: pool_exec_def MonitorThread_init_def pool_configure_def pool_submit_def)
  from pool_never_exceeds_ceiling[OF a, of host_path
      "[Submit (worker_of ''a''), Submit (worker_of ''b''), Submit (worker_of ''c'')]",
      THEN conjunct1] a e
  show ?thesis by simp
qed

end
